theory Spec2Isabelle
  imports Complex_Main "HOL-Library.Monad_Syntax"
begin

section \<open>The justified mosaic layout of ImgCollage\<close>

text \<open>
  The development embeds \<^verbatim>\<open>getAspectRatioFromUrl\<close> and \<^verbatim>\<open>computeMosaicLayout\<close> of
  \<^verbatim>\<open>components/ImgCollage.ts\<close>, and the per-item transform that \<^verbatim>\<open>mountImgCollage\<close>
  applies to the result.

  A JavaScript \<^verbatim>\<open>number\<close> is modelled as a real number: sums, products and quotients are
  exact. The model agrees with the code wherever the code's arithmetic stays finite, that is
  wherever a divisor is not zero; \<^verbatim>\<open>Math.sqrt\<close> of a negative number, which is \<^verbatim>\<open>NaN\<close>
  in the code, is modelled by \<open>None\<close>. A value that may be \<^verbatim>\<open>undefined\<close> or \<^verbatim>\<open>null\<close>
  (a missing key of the ratio record, a failed match) is an \<open>option\<close>.
  The ratio record is modelled by its own properties, as a partial map from strings to
  numbers; a property name that every JavaScript object inherits (such as
  \<^verbatim>\<open>constructor\<close>) is outside the model. Strings are lists of 8-bit characters.
\<close>

subsection \<open>Data model\<close>

text \<open>The objects built by \<^verbatim>\<open>images.map\<close>: \<^verbatim>\<open>{ src, index, ratio }\<close>.\<close>

record Item =
  src :: string
  index :: nat
  ratio :: real

text \<open>The elements of \<^verbatim>\<open>rows\<close>: \<^verbatim>\<open>{ items, sumRatio }\<close>.\<close>

record Row =
  items :: "Item list"
  sumRatio :: real

text \<open>
  The elements of \<^verbatim>\<open>RowLayout.items\<close>: \<^verbatim>\<open>{ index, src, x, width, height }\<close>. The fields
  \<open>box_index\<close> and \<open>box_src\<close> are the source's \<^verbatim>\<open>index\<close> and \<^verbatim>\<open>src\<close>.
\<close>

record RowBox =
  box_index :: nat
  box_src :: string
  x :: real
  width :: real
  height :: real

text \<open>
  \<^verbatim>\<open>RowLayout\<close>: \<^verbatim>\<open>{ height, items }\<close>, here \<open>row_height\<close> and \<open>row_items\<close>.
\<close>

record RowLayout =
  row_height :: real
  row_items :: "RowBox list"

text \<open>The elements of \<^verbatim>\<open>layoutItems\<close>: a row box spread into an object with \<^verbatim>\<open>y\<close>.\<close>

record LayoutItem = RowBox +
  y :: real

text \<open>\<^verbatim>\<open>LayoutResult\<close>; \<open>layout_items\<close> is the source's \<^verbatim>\<open>items\<close>.\<close>

record LayoutResult =
  layout_items :: "LayoutItem list"
  totalHeight :: real
  scale :: real
  topOffset :: real
  leftOffset :: real

definition defaultGap :: real where
  "defaultGap = 2"

subsection \<open>The regular expression of \<^verbatim>\<open>getAspectRatioFromUrl\<close>\<close>

text \<open>
  \<^verbatim>\<open>/picsum\.photos\/.*\/(\d+)\/(\d+)(?:\/)?$/\<close> is embedded piece by piece. Each piece maps
  the rest of the input to the list of its possible matches, in the order in which a
  backtracking matcher tries them (a greedy quantifier tries the longest match first); a
  match is the text consumed together with the input left over.
\<close>

definition isDigit :: "char \<Rightarrow> bool" where
  "isDigit c = (c \<in> set ''0123456789'')"

text \<open>The line terminators that \<^verbatim>\<open>.\<close> does not match; of the four, two are 8-bit.\<close>

definition isLineTerminator :: "char \<Rightarrow> bool" where
  "isLineTerminator c = (c = CHR 0x0A \<or> c = CHR 0x0D)"

text \<open>All ways to cut a string in two, the longest first part first.\<close>

fun splits :: "string \<Rightarrow> (string \<times> string) list" where
  "splits [] = [([], [])]"
| "splits (c # cs) = map (\<lambda>(p, r). (c # p, r)) (splits cs) @ [([], c # cs)]"

text \<open>A literal: one match, if the input starts with it.\<close>

definition lit :: "string \<Rightarrow> string \<Rightarrow> string list" where
  "lit l s = (if take (length l) s = l then [drop (length l) s] else [])"

text \<open>\<^verbatim>\<open>.*\<close>\<close>

definition dotStar :: "string \<Rightarrow> (string \<times> string) list" where
  "dotStar s = filter (\<lambda>(p, r). \<not> list_ex isLineTerminator p) (splits s)"

text \<open>\<^verbatim>\<open>(\d+)\<close>\<close>

definition digitsPlus :: "string \<Rightarrow> (string \<times> string) list" where
  "digitsPlus s = filter (\<lambda>(p, r). p \<noteq> [] \<and> list_all isDigit p) (splits s)"

text \<open>\<^verbatim>\<open>(?:\/)?\<close>\<close>

definition optSlash :: "string \<Rightarrow> string list" where
  "optSlash s = lit ''/'' s @ [s]"

text \<open>
  The whole pattern, tried at the start of \<open>s\<close>: the two captured groups of every successful
  match, in backtracking order.
\<close>

definition matchHere :: "string \<Rightarrow> (string \<times> string) list" where
  "matchHere s = do {
     r0 \<leftarrow> lit ''picsum.photos/'' s;
     (d, r1) \<leftarrow> dotStar r0;
     r2 \<leftarrow> lit ''/'' r1;
     (g1, r3) \<leftarrow> digitsPlus r2;
     r4 \<leftarrow> lit ''/'' r3;
     (g2, r5) \<leftarrow> digitsPlus r4;
     r6 \<leftarrow> optSlash r5;
     (if r6 = [] then [(g1, g2)] else [])
   }"

text \<open>The start positions that \<^verbatim>\<open>exec\<close> tries, from the left.\<close>

fun tails :: "string \<Rightarrow> string list" where
  "tails [] = [[]]"
| "tails (c # cs) = (c # cs) # tails cs"

text \<open>\<^verbatim>\<open>exec\<close>: the first match, or \<^verbatim>\<open>null\<close>.\<close>

definition regexExec :: "string \<Rightarrow> (string \<times> string) option" where
  "regexExec s = (case concat (map matchHere (tails s)) of [] \<Rightarrow> None | m # ms \<Rightarrow> Some m)"

text \<open>\<^verbatim>\<open>parseInt(_, 10)\<close> on a string of decimal digits, as the groups are.\<close>

definition digitValue :: "char \<Rightarrow> nat" where
  "digitValue c = of_char c - 48"

definition parseInt :: "string \<Rightarrow> nat" where
  "parseInt s = foldl (\<lambda>n c. 10 * n + digitValue c) 0 s"

definition getAspectRatioFromUrl :: "string \<Rightarrow> real option" where
  "getAspectRatioFromUrl s =
     (case regexExec s of
        None \<Rightarrow> None
      | Some (m1, m2) \<Rightarrow>
          (let w = parseInt m1; h = parseInt m2
           in if h = 0 then None else Some (real w / real h)))"

subsection \<open>Step 1: items and their aspect ratios\<close>

text \<open>
  \<^verbatim>\<open>a || b\<close> on numbers that may be missing: \<open>a\<close> if it is truthy (present and not zero),
  else \<open>b\<close>. The last operand of the chain in the source is the constant 1.5.
\<close>

definition truthy :: "real option \<Rightarrow> bool" where
  "truthy a = (case a of None \<Rightarrow> False | Some v \<Rightarrow> v \<noteq> 0)"

definition js_or :: "real option \<Rightarrow> real option \<Rightarrow> real option" where
  "js_or a b = (if truthy a then a else b)"

definition js_or_const :: "real option \<Rightarrow> real \<Rightarrow> real" where
  "js_or_const a d = (case a of None \<Rightarrow> d | Some v \<Rightarrow> if v \<noteq> 0 then v else d)"

definition resolveRatio :: "(string \<rightharpoonup> real) \<Rightarrow> string \<Rightarrow> real" where
  "resolveRatio ratios s = js_or_const (js_or (ratios s) (getAspectRatioFromUrl s)) 1.5"

definition prepareItems :: "string list \<Rightarrow> (string \<rightharpoonup> real) \<Rightarrow> Item list" where
  "prepareItems images ratios =
     map (\<lambda>(i, s). \<lparr>src = s, index = i, ratio = resolveRatio ratios s\<rparr>) (enumerate 0 images)"

text \<open>\<^verbatim>\<open>items.reduce((sum, item) => sum + item.ratio, 0)\<close>\<close>

definition totalRatioOf :: "Item list \<Rightarrow> real" where
  "totalRatioOf its = foldl (\<lambda>sum item. sum + ratio item) 0 its"

subsection \<open>Step 2: the number of rows\<close>

definition mathSqrt :: "real \<Rightarrow> real option" where
  "mathSqrt v = (if v < 0 then None else Some (sqrt v))"

text \<open>
  \<^verbatim>\<open>Math.round\<close> rounds half up, as \<^const>\<open>round\<close> does. \<open>None\<close> is \<^verbatim>\<open>NaN\<close>, which
  \<^verbatim>\<open>Math.round\<close>, \<^verbatim>\<open>Math.min\<close> and \<^verbatim>\<open>Math.max\<close> pass on.
\<close>

definition estimateRowCount :: "real \<Rightarrow> real \<Rightarrow> nat \<Rightarrow> int option" where
  "estimateRowCount totalRatio containerRatio n =
     (case mathSqrt (totalRatio / containerRatio) of
        None \<Rightarrow> None
      | Some r \<Rightarrow> (let K = round r in Some (max 1 (min K (int n)))))"

subsection \<open>Step 3: partition into rows\<close>

text \<open>
  The test \<^verbatim>\<open>rows.length < K - 1\<close>; it is false when \<^verbatim>\<open>K\<close> is \<^verbatim>\<open>NaN\<close>.
\<close>

definition mayClose :: "int option \<Rightarrow> Row list \<Rightarrow> bool" where
  "mayClose K rows = (case K of None \<Rightarrow> False | Some k \<Rightarrow> int (length rows) < k - 1)"

text \<open>
  The body of \<^verbatim>\<open>items.forEach\<close>, with the items still to visit as the first list and the
  mutable \<^verbatim>\<open>rows\<close>, \<^verbatim>\<open>currentSlice\<close> and \<^verbatim>\<open>currentSum\<close> as arguments. The last item is the
  one with nothing after it; \<^verbatim>\<open>items[i + 1]\<close> is the head of what follows.
\<close>

fun partitionLoop ::
  "int option \<Rightarrow> real \<Rightarrow> Item list \<Rightarrow> Row list \<Rightarrow> Item list \<Rightarrow> real \<Rightarrow> Row list" where
  "partitionLoop K ideal [] rows currentSlice currentSum = rows"
| "partitionLoop K ideal [item] rows currentSlice currentSum =
     rows @ [\<lparr>items = currentSlice @ [item], sumRatio = currentSum + ratio item\<rparr>]"
| "partitionLoop K ideal (item # nxt # rest) rows currentSlice currentSum =
     (let slice = currentSlice @ [item];
          sum = currentSum + ratio item
      in if mayClose K rows \<and> \<bar>(sum + ratio nxt) - ideal\<bar> > \<bar>sum - ideal\<bar>
         then partitionLoop K ideal (nxt # rest) (rows @ [\<lparr>items = slice, sumRatio = sum\<rparr>]) [] 0
         else partitionLoop K ideal (nxt # rest) rows slice sum)"

text \<open>
  When \<^verbatim>\<open>K\<close> is \<^verbatim>\<open>NaN\<close> the code takes the second branch, with an ideal that is \<^verbatim>\<open>NaN\<close>
  too; no row is closed then, whatever the ideal, so the model passes 0 for it.
\<close>

definition partitionRows :: "Item list \<Rightarrow> int option \<Rightarrow> Row list" where
  "partitionRows its K =
     (let totalRatio = totalRatioOf its
      in if K = Some 1 then [\<lparr>items = its, sumRatio = totalRatio\<rparr>]
         else (let idealRatioPerRow = (case K of None \<Rightarrow> 0 | Some k \<Rightarrow> totalRatio / real_of_int k)
               in partitionLoop K idealRatioPerRow its [] [] 0))"

subsection \<open>Step 4: geometry\<close>

text \<open>The inner \<^verbatim>\<open>row.items.forEach\<close>, with \<^verbatim>\<open>currentX\<close> as an argument.\<close>

fun placeItems :: "real \<Rightarrow> real \<Rightarrow> real \<Rightarrow> Item list \<Rightarrow> RowBox list" where
  "placeItems rowHeight gap currentX [] = []"
| "placeItems rowHeight gap currentX (item # rest) =
     (let itemWidth = ratio item * rowHeight
      in \<lparr>box_index = index item, box_src = src item, x = currentX,
           width = itemWidth, height = rowHeight\<rparr>
         # placeItems rowHeight gap (currentX + itemWidth + gap) rest)"

definition buildRow :: "real \<Rightarrow> real \<Rightarrow> Row \<Rightarrow> RowLayout" where
  "buildRow containerWidth gap row =
     (let availableWidth = containerWidth - (real (length (items row)) - 1) * gap;
          rowHeight = availableWidth / sumRatio row
      in \<lparr>row_height = rowHeight, row_items = placeItems rowHeight gap 0 (items row)\<rparr>)"

text \<open>\<^verbatim>\<open>rows.forEach\<close>, which skips a row without items.\<close>

definition buildRows :: "real \<Rightarrow> real \<Rightarrow> Row list \<Rightarrow> RowLayout list" where
  "buildRows containerWidth gap rows =
     map (buildRow containerWidth gap) (filter (\<lambda>row. length (items row) \<noteq> 0) rows)"

definition rowSpacingCountOf :: "RowLayout list \<Rightarrow> int" where
  "rowSpacingCountOf rowLayouts = max 0 (int (length rowLayouts) - 1)"

definition sumRowHeightsOf :: "RowLayout list \<Rightarrow> real" where
  "sumRowHeightsOf rowLayouts = foldl (\<lambda>sum row. sum + row_height row) 0 rowLayouts"

text \<open>
  The vertical gap and the total height after the stretch of lines 113 to 123, as the pair
  \<open>(verticalGap, totalHeight)\<close>.
\<close>

definition fitVertical :: "RowLayout list \<Rightarrow> real \<Rightarrow> real \<Rightarrow> real \<times> real" where
  "fitVertical rowLayouts gap containerHeight =
     (let rowSpacingCount = rowSpacingCountOf rowLayouts;
          sumRowHeights = sumRowHeightsOf rowLayouts;
          verticalGap = gap;
          totalHeight = sumRowHeights + verticalGap * real_of_int rowSpacingCount
      in if rowSpacingCount > 0 \<and> totalHeight < containerHeight
         then (let extra = containerHeight - totalHeight;
                   verticalGap = gap + extra / real_of_int rowSpacingCount
               in (verticalGap, sumRowHeights + verticalGap * real_of_int rowSpacingCount))
         else (verticalGap, totalHeight))"

text \<open>
  The loop that fills \<^verbatim>\<open>layoutItems\<close>, with \<^verbatim>\<open>currentY\<close> as an argument. The final
  adjustment of \<^verbatim>\<open>currentY\<close> has no effect on the result and is left out.
\<close>

fun stackRows :: "real \<Rightarrow> real \<Rightarrow> RowLayout list \<Rightarrow> LayoutItem list" where
  "stackRows verticalGap currentY [] = []"
| "stackRows verticalGap currentY (row # rest) =
     map (\<lambda>item. \<lparr>box_index = box_index item, box_src = box_src item, x = x item,
                   width = width item, height = height item, y = currentY\<rparr>) (row_items row)
     @ stackRows verticalGap (currentY + row_height row + verticalGap) rest"

subsection \<open>Step 5: fit to the container, and the whole function\<close>

text \<open>The rows and the row layouts that \<^verbatim>\<open>computeMosaicLayout\<close> builds for a non-empty input.\<close>

definition layoutRows :: "string list \<Rightarrow> (string \<rightharpoonup> real) \<Rightarrow> real \<Rightarrow> real \<Rightarrow> Row list" where
  "layoutRows images ratios containerWidth containerHeight =
     (let its = prepareItems images ratios;
          totalRatio = totalRatioOf its;
          containerRatio = containerWidth / containerHeight;
          K = estimateRowCount totalRatio containerRatio (length its)
      in partitionRows its K)"

definition layoutRowLayouts ::
  "string list \<Rightarrow> (string \<rightharpoonup> real) \<Rightarrow> real \<Rightarrow> real \<Rightarrow> real \<Rightarrow> RowLayout list" where
  "layoutRowLayouts images ratios containerWidth containerHeight gap =
     buildRows containerWidth gap (layoutRows images ratios containerWidth containerHeight)"

text \<open>
  \<^verbatim>\<open>computeMosaicLayout\<close>. A caller that leaves \<^verbatim>\<open>gap\<close> out passes \<^const>\<open>defaultGap\<close>.
\<close>

definition computeMosaicLayout ::
  "string list \<Rightarrow> (string \<rightharpoonup> real) \<Rightarrow> real \<Rightarrow> real \<Rightarrow> real \<Rightarrow> LayoutResult" where
  "computeMosaicLayout images ratios containerWidth containerHeight gap =
     (if length images = 0
      then \<lparr>layout_items = [], totalHeight = 0, scale = 1, topOffset = 0, leftOffset = 0\<rparr>
      else
        (let rowLayouts = layoutRowLayouts images ratios containerWidth containerHeight gap;
             (verticalGap, totalHeight) = fitVertical rowLayouts gap containerHeight;
             layoutItems = stackRows verticalGap 0 rowLayouts;
             scale = (if totalHeight > containerHeight then containerHeight / totalHeight else 1);
             finalWidth = containerWidth * scale;
             finalHeight = totalHeight * scale;
             leftOffset = (containerWidth - finalWidth) / 2;
             topOffset = (containerHeight - finalHeight) / 2
         in \<lparr>layout_items = layoutItems, totalHeight = totalHeight, scale = scale,
              topOffset = topOffset, leftOffset = leftOffset\<rparr>))"

subsection \<open>The consumer's transform\<close>

text \<open>
  \<^verbatim>\<open>mountImgCollage\<close> positions the wrapper of each item from the result: the four style
  values \<^verbatim>\<open>top\<close>, \<^verbatim>\<open>left\<close>, \<^verbatim>\<open>width\<close> and \<^verbatim>\<open>height\<close> (in pixels).
\<close>

record WrapperStyle =
  css_top :: real
  css_left :: real
  css_width :: real
  css_height :: real

definition wrapperStyle :: "LayoutResult \<Rightarrow> LayoutItem \<Rightarrow> WrapperStyle" where
  "wrapperStyle layout item =
     (let scaledWidth = width item * scale layout;
          scaledHeight = height item * scale layout;
          scaledX = leftOffset layout + x item * scale layout;
          scaledY = topOffset layout + y item * scale layout
      in \<lparr>css_top = scaledY, css_left = scaledX, css_width = scaledWidth,
           css_height = scaledHeight\<rparr>)"

subsection \<open>The divisions of a run\<close>



subsection \<open>The specification's wording, for comparison\<close>






section \<open>Properties\<close>

text \<open>
  C8. Whatever the ratio record, the container width, the container height and the gap,
  the layout of an empty image list is the record with no items, total height 0, scale 1
  and both offsets 0.
\<close>

theorem computeMosaicLayout_empty:
  "computeMosaicLayout [] ratios containerWidth containerHeight gap =
     \<lparr>layout_items = [], totalHeight = 0, scale = 1, topOffset = 0, leftOffset = 0\<rparr>"
  by (simp add: computeMosaicLayout_def)

subsection \<open>Sums and indices\<close>

lemma foldl_ratio_sum: "foldl (\<lambda>sum item. sum + ratio item) a its = a + sum_list (map ratio its)"
  by (induction its arbitrary: a) simp_all


lemma map_index_prepareItems: "map index (prepareItems images ratios) = [0..<length images]"
proof -
  have "map index (prepareItems images ratios) = map fst (enumerate 0 images)"
    by (simp add: prepareItems_def case_prod_beta comp_def)
  then show ?thesis by simp
qed

lemma length_prepareItems: "length (prepareItems images ratios) = length images"
  by (simp add: prepareItems_def)

lemma concat_partitionLoop:
  "its \<noteq> [] \<Longrightarrow>
   concat (map items (partitionLoop K ideal its rows currentSlice currentSum)) =
     concat (map items rows) @ currentSlice @ its"
  by (induction K ideal its rows currentSlice currentSum rule: partitionLoop.induct)
     (simp_all add: Let_def)

lemma concat_partitionRows: "concat (map items (partitionRows its K)) = its"
proof (cases "its = []")
  case True
  then show ?thesis by (simp add: partitionRows_def Let_def)
next
  case False
  then show ?thesis by (simp add: partitionRows_def Let_def concat_partitionLoop)
qed

lemma box_index_placeItems:
  "map box_index (placeItems rowHeight gap currentX its) = map index its"
  by (induction its arbitrary: currentX) (simp_all add: Let_def)

lemma box_index_buildRows:
  "concat (map (\<lambda>rl. map box_index (row_items rl)) (buildRows containerWidth gap rows)) =
     map index (concat (map items rows))"
  by (induction rows) (simp_all add: buildRows_def buildRow_def Let_def box_index_placeItems)

lemma box_index_stackRows:
  "map box_index (stackRows verticalGap currentY rowLayouts) =
     concat (map (\<lambda>rl. map box_index (row_items rl)) rowLayouts)"
  by (induction rowLayouts arbitrary: currentY) (simp_all add: comp_def)

text \<open>
  C1. For a non-empty list of \<open>n\<close> images, any ratio record, a positive container width and
  height and a non-negative gap, the indices of the returned items, read in the order of
  the list, are \<open>0, 1, \<dots>, n - 1\<close>: each input index occurs exactly once and the items
  are in increasing index order.
\<close>

theorem computeMosaicLayout_indices:
  assumes "images \<noteq> []" and "0 < containerWidth" and "0 < containerHeight" and "0 \<le> gap"
  shows "map box_index (layout_items (computeMosaicLayout images ratios containerWidth containerHeight gap))
           = [0..<length images]"
  using assms(1)
  by (simp add: computeMosaicLayout_def Let_def case_prod_beta layoutRowLayouts_def layoutRows_def
      box_index_stackRows box_index_buildRows concat_partitionRows map_index_prepareItems)

theorem computeMosaicLayout_indices_witness:
  "[''a'', ''b'', ''c''] \<noteq> [] \<and> (0::real) < 400 \<and> (0::real) < 300 \<and> (0::real) \<le> 2
   \<and> map box_index (layout_items (computeMosaicLayout [''a'', ''b'', ''c''] Map.empty 400 300 2))
       = [0, 1, 2]"
proof -
  have "map box_index (layout_items (computeMosaicLayout [''a'', ''b'', ''c''] Map.empty 400 300 2))
      = [0..<length [''a'', ''b'', ''c'']]"
    by (rule computeMosaicLayout_indices) simp_all
  also have "\<dots> = [0, 1, 2]"
    by (simp add: upt_rec)
  finally show ?thesis by simp
qed

subsection \<open>The partition\<close>










subsection \<open>Row geometry\<close>

lemma partitionLoop_sumRatio:
  "currentSum = sum_list (map ratio currentSlice) \<Longrightarrow>
   \<forall>r \<in> set rows. sumRatio r = sum_list (map ratio (items r)) \<Longrightarrow>
   row \<in> set (partitionLoop K ideal its rows currentSlice currentSum) \<Longrightarrow>
   sumRatio row = sum_list (map ratio (items row))"
proof (induction K ideal its rows currentSlice currentSum rule: partitionLoop.induct)
  case (1 K ideal rows currentSlice currentSum)
  then show ?case by simp
next
  case (2 K ideal item rows currentSlice currentSum)
  then show ?case by auto
next
  case (3 K ideal item nxt rest rows currentSlice currentSum)
  let ?slice = "currentSlice @ [item]"
  let ?sum = "currentSum + ratio item"
  show ?case
  proof (cases "mayClose K rows \<and> \<bar>(?sum + ratio nxt) - ideal\<bar> > \<bar>?sum - ideal\<bar>")
    case True
    with "3.prems"(3) have "row \<in> set (partitionLoop K ideal (nxt # rest)
        (rows @ [\<lparr>items = ?slice, sumRatio = ?sum\<rparr>]) [] 0)"
      by (simp add: Let_def)
    moreover have "\<forall>r \<in> set (rows @ [\<lparr>items = ?slice, sumRatio = ?sum\<rparr>]).
        sumRatio r = sum_list (map ratio (items r))"
      using "3.prems"(1,2) by simp
    ultimately show ?thesis
      using "3.IH"(1) [OF refl refl True] by simp
  next
    case False
    with "3.prems"(3) have "row \<in> set (partitionLoop K ideal (nxt # rest) rows ?slice ?sum)"
      by (auto simp add: Let_def)
    moreover have "?sum = sum_list (map ratio ?slice)"
      using "3.prems"(1) by simp
    ultimately show ?thesis
      using "3.IH"(2) [OF refl refl False] "3.prems"(2) by simp
  qed
qed

lemma partitionRows_sumRatio:
  "row \<in> set (partitionRows its K) \<Longrightarrow> sumRatio row = sum_list (map ratio (items row))"
proof (cases "K = Some 1")
  case True
  assume "row \<in> set (partitionRows its K)"
  with True show ?thesis
    by (simp add: partitionRows_def totalRatioOf_def foldl_ratio_sum)
next
  case False
  assume "row \<in> set (partitionRows its K)"
  with False have "row \<in> set (partitionLoop K
      (case K of None \<Rightarrow> 0 | Some k \<Rightarrow> totalRatioOf its / real_of_int k) its [] [] 0)"
    by (simp add: partitionRows_def)
  then show ?thesis
    by (rule partitionLoop_sumRatio [rotated 2]) simp_all
qed

lemma length_placeItems: "length (placeItems rowHeight gap currentX its) = length its"
  by (induction its arbitrary: currentX) (simp_all add: Let_def)

lemma nth_placeItems:
  "i < length its \<Longrightarrow>
   placeItems rowHeight gap currentX its ! i =
     \<lparr>box_index = index (its ! i), box_src = src (its ! i),
      x = currentX + rowHeight * sum_list (map ratio (take i its)) + real i * gap,
      width = ratio (its ! i) * rowHeight, height = rowHeight\<rparr>"
proof (induction its arbitrary: currentX i)
  case Nil
  then show ?case by simp
next
  case (Cons item rest)
  show ?case
  proof (cases i)
    case 0
    then show ?thesis by (simp add: Let_def)
  next
    case (Suc j)
    with Cons.prems have "j < length rest" by simp
    from Cons.IH [OF this] Suc show ?thesis
      by (simp add: Let_def algebra_simps)
  qed
qed

text \<open>
  C3. For a row that the partition builds, with at least one item, a positive ratio sum and
  a container wider than the gaps of the row: the row height is the available width divided
  by the ratio sum, every box of the row has that height and the width of its ratio times
  the height, the first box starts at 0, each further box starts where the previous one
  ends plus the gap, and the last box ends exactly at the container width.
\<close>

theorem buildRow_justified:
  assumes "row \<in> set (partitionRows its K)"
    and "items row \<noteq> []"
    and "0 < sumRatio row"
    and "(real (length (items row)) - 1) * gap < containerWidth"
  shows "(let rowHeight = (containerWidth - (real (length (items row)) - 1) * gap) / sumRatio row;
              boxes = row_items (buildRow containerWidth gap row)
          in row_height (buildRow containerWidth gap row) = rowHeight
           \<and> length boxes = length (items row)
           \<and> (\<forall>i < length boxes. height (boxes ! i) = rowHeight
                  \<and> width (boxes ! i) = ratio (items row ! i) * rowHeight
                  \<and> box_index (boxes ! i) = index (items row ! i))
           \<and> x (boxes ! 0) = 0
           \<and> (\<forall>i. Suc i < length boxes \<longrightarrow>
                  x (boxes ! Suc i) = x (boxes ! i) + width (boxes ! i) + gap)
           \<and> x (last boxes) + width (last boxes) = containerWidth)"
proof -
  define n where "n = length (items row)"
  define rowHeight where
    "rowHeight = (containerWidth - (real n - 1) * gap) / sumRatio row"
  define boxes where "boxes = row_items (buildRow containerWidth gap row)"
  have boxes: "boxes = placeItems rowHeight gap 0 (items row)"
    by (simp add: boxes_def buildRow_def Let_def rowHeight_def n_def)
  have len: "length boxes = n"
    by (simp add: boxes length_placeItems n_def)
  have npos: "0 < n"
    using assms(2) by (simp add: n_def)
  have nth: "boxes ! i =
      \<lparr>box_index = index (items row ! i), box_src = src (items row ! i),
       x = rowHeight * sum_list (map ratio (take i (items row))) + real i * gap,
       width = ratio (items row ! i) * rowHeight, height = rowHeight\<rparr>" if "i < n" for i
    using nth_placeItems [of i "items row" rowHeight gap 0] that by (simp add: boxes n_def)
  have h: "row_height (buildRow containerWidth gap row) = rowHeight"
    by (simp add: buildRow_def Let_def rowHeight_def n_def)
  have step: "x (boxes ! Suc i) = x (boxes ! i) + width (boxes ! i) + gap" if "Suc i < n" for i
  proof -
    from that have i: "i < n" by simp
    have "take (Suc i) (items row) = take i (items row) @ [items row ! i]"
      using i by (simp add: take_Suc_conv_app_nth n_def)
    then show ?thesis
      using nth [OF that] nth [OF i] by (simp add: algebra_simps)
  qed
  have total: "sumRatio row = sum_list (map ratio (items row))"
    using assms(1) by (rule partitionRows_sumRatio)
  have lastbox: "last boxes = boxes ! (n - 1)"
  proof -
    from len npos have "boxes \<noteq> []" by auto
    then show ?thesis by (simp add: last_conv_nth len)
  qed
  have split: "items row = take (n - 1) (items row) @ [items row ! (n - 1)]"
    using npos by (metis n_def assms(2) append_butlast_last_id butlast_conv_take last_conv_nth)
  have "sum_list (map ratio (items row)) =
      sum_list (map ratio (take (n - 1) (items row))) + ratio (items row ! (n - 1))"
    by (subst split) simp
  then have "rowHeight * sum_list (map ratio (take (n - 1) (items row)))
      + ratio (items row ! (n - 1)) * rowHeight = rowHeight * sumRatio row"
    by (simp add: total algebra_simps)
  also have "\<dots> = containerWidth - (real n - 1) * gap"
    using assms(3) by (simp add: rowHeight_def)
  finally have "x (last boxes) + width (last boxes) = containerWidth"
    using npos nth [of "n - 1"] by (simp add: lastbox of_nat_diff)
  with h len nth step npos show ?thesis
    unfolding Let_def boxes_def [symmetric] rowHeight_def [symmetric] n_def [symmetric]
    by simp
qed

theorem buildRow_justified_witness:
  "\<lparr>items = [\<lparr>src = ''a'', index = 0, ratio = 1\<rparr>, \<lparr>src = ''b'', index = 1, ratio = 1\<rparr>],
      sumRatio = 2\<rparr>
     \<in> set (partitionRows [\<lparr>src = ''a'', index = 0, ratio = 1\<rparr>,
         \<lparr>src = ''b'', index = 1, ratio = 1\<rparr>, \<lparr>src = ''c'', index = 2, ratio = 2\<rparr>] (Some 2))
   \<and> row_items (buildRow 410 10
        \<lparr>items = [\<lparr>src = ''a'', index = 0, ratio = 1\<rparr>, \<lparr>src = ''b'', index = 1, ratio = 1\<rparr>],
          sumRatio = 2\<rparr>)
       = [\<lparr>box_index = 0, box_src = ''a'', x = 0, width = 200, height = 200\<rparr>,
          \<lparr>box_index = 1, box_src = ''b'', x = 210, width = 200, height = 200\<rparr>]
   \<and> x (last (row_items (buildRow 410 10
        \<lparr>items = [\<lparr>src = ''a'', index = 0, ratio = 1\<rparr>, \<lparr>src = ''b'', index = 1, ratio = 1\<rparr>],
          sumRatio = 2\<rparr>)))
     + width (last (row_items (buildRow 410 10
        \<lparr>items = [\<lparr>src = ''a'', index = 0, ratio = 1\<rparr>, \<lparr>src = ''b'', index = 1, ratio = 1\<rparr>],
          sumRatio = 2\<rparr>))) = 410"
proof -
  let ?its = "[\<lparr>src = ''a'', index = 0, ratio = 1\<rparr>, \<lparr>src = ''b'', index = 1, ratio = 1\<rparr>,
    \<lparr>src = ''c'', index = 2, ratio = 2\<rparr>]"
  let ?row = "\<lparr>items = [\<lparr>src = ''a'', index = 0, ratio = 1\<rparr>, \<lparr>src = ''b'', index = 1, ratio = 1\<rparr>],
      sumRatio = 2\<rparr>"
  have h1: "?row \<in> set (partitionRows ?its (Some 2))"
    by (simp add: partitionRows_def totalRatioOf_def mayClose_def)
  have h2: "items ?row \<noteq> []" by simp
  have h3: "0 < sumRatio ?row" by simp
  have h4: "(real (length (items ?row)) - 1) * 10 < 410" by simp
  have b: "row_items (buildRow 410 10 ?row)
       = [\<lparr>box_index = 0, box_src = ''a'', x = 0, width = 200, height = 200\<rparr>,
          \<lparr>box_index = 1, box_src = ''b'', x = 210, width = 200, height = 200\<rparr>]"
    by (simp add: buildRow_def)
  from buildRow_justified [OF h1 h2 h3 h4] have
    "x (last (row_items (buildRow 410 10 ?row))) + width (last (row_items (buildRow 410 10 ?row))) = 410"
    unfolding Let_def by blast
  with h1 b show ?thesis by blast
qed

subsection \<open>Two worked examples\<close>

text \<open>
  Four images of ratio 1/2, the first with its size in its address, in a 100 by 200
  container with gap 10: two rows of two.
\<close>

lemma round_sqrt_eqI:
  assumes "0 < k" and "(real_of_int k - 1/2)\<^sup>2 \<le> q" and "q < (real_of_int k + 1/2)\<^sup>2"
  shows "round (sqrt q) = k"
proof -
  have lo: "real_of_int k - 1/2 \<le> sqrt q"
    using assms(2) by (rule real_le_rsqrt)
  have "0 \<le> real_of_int k + 1/2"
    using assms(1) by simp
  then have hi: "sqrt q < real_of_int k + 1/2"
    using assms(3) by (rule real_less_lsqrt)
  show ?thesis
    by (rule round_unique) (use lo hi in simp_all)
qed



lemma example_url: "getAspectRatioFromUrl ''picsum.photos/id/1/50/100'' = Some (1/2)"
  by code_simp

lemma example_items:
  "prepareItems [''picsum.photos/id/1/50/100'', ''b'', ''c'', ''d'']
      [''b'' \<mapsto> 1/2, ''c'' \<mapsto> 1/2, ''d'' \<mapsto> 1/2]
   = [\<lparr>src = ''picsum.photos/id/1/50/100'', index = 0, ratio = 1/2\<rparr>,
      \<lparr>src = ''b'', index = 1, ratio = 1/2\<rparr>,
      \<lparr>src = ''c'', index = 2, ratio = 1/2\<rparr>, \<lparr>src = ''d'', index = 3, ratio = 1/2\<rparr>]"
  by (simp add: prepareItems_def resolveRatio_def js_or_def js_or_const_def truthy_def
      enumerate_eq_zip upt_rec example_url)

lemma example_rowCount:
  "estimateRowCount
     (totalRatioOf [\<lparr>src = ''picsum.photos/id/1/50/100'', index = 0, ratio = 1/2\<rparr>,
        \<lparr>src = ''b'', index = 1, ratio = 1/2\<rparr>,
        \<lparr>src = ''c'', index = 2, ratio = 1/2\<rparr>, \<lparr>src = ''d'', index = 3, ratio = 1/2\<rparr>])
     (100 / 200)
     (length [\<lparr>src = ''picsum.photos/id/1/50/100'', index = 0, ratio = 1/2\<rparr>,
        \<lparr>src = ''b'', index = 1, ratio = 1/2\<rparr>,
        \<lparr>src = ''c'', index = 2, ratio = 1/2\<rparr>, \<lparr>src = ''d'', index = 3, ratio = 1/2\<rparr>])
   = Some 2"
  by (simp add: totalRatioOf_def estimateRowCount_def mathSqrt_def)

lemma example_partition:
  "partitionRows [\<lparr>src = ''picsum.photos/id/1/50/100'', index = 0, ratio = 1/2\<rparr>,
        \<lparr>src = ''b'', index = 1, ratio = 1/2\<rparr>,
        \<lparr>src = ''c'', index = 2, ratio = 1/2\<rparr>, \<lparr>src = ''d'', index = 3, ratio = 1/2\<rparr>] (Some 2)
   = [\<lparr>items = [\<lparr>src = ''picsum.photos/id/1/50/100'', index = 0, ratio = 1/2\<rparr>,
                \<lparr>src = ''b'', index = 1, ratio = 1/2\<rparr>], sumRatio = 1\<rparr>,
      \<lparr>items = [\<lparr>src = ''c'', index = 2, ratio = 1/2\<rparr>, \<lparr>src = ''d'', index = 3, ratio = 1/2\<rparr>],
        sumRatio = 1\<rparr>]"
  by (simp add: partitionRows_def totalRatioOf_def mayClose_def Let_def)

lemma example_rows:
  "layoutRows [''picsum.photos/id/1/50/100'', ''b'', ''c'', ''d'']
      [''b'' \<mapsto> 1/2, ''c'' \<mapsto> 1/2, ''d'' \<mapsto> 1/2] 100 200
   = [\<lparr>items = [\<lparr>src = ''picsum.photos/id/1/50/100'', index = 0, ratio = 1/2\<rparr>,
                \<lparr>src = ''b'', index = 1, ratio = 1/2\<rparr>], sumRatio = 1\<rparr>,
      \<lparr>items = [\<lparr>src = ''c'', index = 2, ratio = 1/2\<rparr>, \<lparr>src = ''d'', index = 3, ratio = 1/2\<rparr>],
        sumRatio = 1\<rparr>]"
  by (simp only: layoutRows_def Let_def example_items example_rowCount example_partition)

lemma example_rowLayouts:
  "layoutRowLayouts [''picsum.photos/id/1/50/100'', ''b'', ''c'', ''d'']
      [''b'' \<mapsto> 1/2, ''c'' \<mapsto> 1/2, ''d'' \<mapsto> 1/2] 100 200 10
   = [\<lparr>row_height = 90, row_items =
         [\<lparr>box_index = 0, box_src = ''picsum.photos/id/1/50/100'', x = 0, width = 45, height = 90\<rparr>,
          \<lparr>box_index = 1, box_src = ''b'', x = 55, width = 45, height = 90\<rparr>]\<rparr>,
      \<lparr>row_height = 90, row_items =
         [\<lparr>box_index = 2, box_src = ''c'', x = 0, width = 45, height = 90\<rparr>,
          \<lparr>box_index = 3, box_src = ''d'', x = 55, width = 45, height = 90\<rparr>]\<rparr>]"
  unfolding layoutRowLayouts_def example_rows
  by (simp add: buildRows_def buildRow_def Let_def)








subsection \<open>Vertical fit\<close>

lemma truncate_stackRows:
  "map RowBox.truncate (stackRows verticalGap currentY rowLayouts) = concat (map row_items rowLayouts)"
proof (induction rowLayouts arbitrary: currentY)
  case Nil
  then show ?case by simp
next
  case (Cons row rest)
  have "map (\<lambda>b. \<lparr>box_index = box_index b, box_src = box_src b, x = x b, width = width b,
      height = height b\<rparr>) (row_items row) = row_items row"
    by (rule map_idI) simp
  with Cons.IH show ?case
    by (simp add: RowBox.truncate_def comp_def)
qed

lemma stretch_exact:
  fixes m :: real
  assumes "m \<noteq> 0"
  shows "s + (g + (c - (s + g * m)) / m) * m = c"
proof -
  have "(c - (s + g * m)) / m * m = c - (s + g * m)"
    using assms by simp
  then show ?thesis
    by (simp add: distrib_right)
qed

lemma rowSpacingCountOf_real:
  "1 < length rowLayouts \<Longrightarrow> real_of_int (rowSpacingCountOf rowLayouts) = real (length rowLayouts) - 1"
  by (simp add: rowSpacingCountOf_def)

text \<open>
  C4. With more than one row layout and an initial total height (the sum of the row heights
  plus the gap between consecutive rows) below the container height, the vertical gap
  becomes the gap plus the missing height shared among the row spacings, and the
  recomputed total height is the container height exactly. An initial total height that
  does not exceed the container height never leads to one that does. The boxes of the
  stacked items are the boxes of the row layouts, unchanged in position \<open>x\<close>, width and
  height, and the layout returns this total height and these items.
\<close>

theorem fitVertical_stretch:
  "(1 < length rowLayouts
      \<and> sumRowHeightsOf rowLayouts + gap * (real (length rowLayouts) - 1) < containerHeight
    \<longrightarrow> fst (fitVertical rowLayouts gap containerHeight)
          = gap + (containerHeight
                    - (sumRowHeightsOf rowLayouts + gap * (real (length rowLayouts) - 1)))
                  / (real (length rowLayouts) - 1)
        \<and> snd (fitVertical rowLayouts gap containerHeight) = containerHeight)
   \<and> (sumRowHeightsOf rowLayouts + gap * real_of_int (rowSpacingCountOf rowLayouts)
        \<le> containerHeight
      \<longrightarrow> snd (fitVertical rowLayouts gap containerHeight) \<le> containerHeight)
   \<and> map RowBox.truncate (stackRows (fst (fitVertical rowLayouts gap containerHeight)) 0 rowLayouts)
       = concat (map row_items rowLayouts)
   \<and> (images \<noteq> [] \<and> rowLayouts = layoutRowLayouts images ratios containerWidth containerHeight gap
      \<longrightarrow> totalHeight (computeMosaicLayout images ratios containerWidth containerHeight gap)
            = snd (fitVertical rowLayouts gap containerHeight)
        \<and> layout_items (computeMosaicLayout images ratios containerWidth containerHeight gap)
            = stackRows (fst (fitVertical rowLayouts gap containerHeight)) 0 rowLayouts)"
proof -
  have a: "fst (fitVertical rowLayouts gap containerHeight)
          = gap + (containerHeight
                    - (sumRowHeightsOf rowLayouts + gap * (real (length rowLayouts) - 1)))
                  / (real (length rowLayouts) - 1)
        \<and> snd (fitVertical rowLayouts gap containerHeight) = containerHeight"
    if "1 < length rowLayouts"
      and "sumRowHeightsOf rowLayouts + gap * (real (length rowLayouts) - 1) < containerHeight"
  proof -
    have n: "real_of_int (rowSpacingCountOf rowLayouts) = real (length rowLayouts) - 1"
      using that(1) by (rule rowSpacingCountOf_real)
    have pos: "0 < rowSpacingCountOf rowLayouts"
      using that(1) by (simp add: rowSpacingCountOf_def)
    have nz: "real (length rowLayouts) - 1 \<noteq> 0"
      using that(1) by simp
    have "sumRowHeightsOf rowLayouts
        + (gap + (containerHeight
                   - (sumRowHeightsOf rowLayouts + gap * (real (length rowLayouts) - 1)))
                 / (real (length rowLayouts) - 1))
          * (real (length rowLayouts) - 1) = containerHeight"
      using nz by (rule stretch_exact)
    then show ?thesis
      using that(2) pos by (simp add: fitVertical_def Let_def n)
  qed
  have b: "snd (fitVertical rowLayouts gap containerHeight) \<le> containerHeight"
    if "sumRowHeightsOf rowLayouts + gap * real_of_int (rowSpacingCountOf rowLayouts)
        \<le> containerHeight"
  proof (cases "0 < rowSpacingCountOf rowLayouts
      \<and> sumRowHeightsOf rowLayouts + gap * real_of_int (rowSpacingCountOf rowLayouts) < containerHeight")
    case True
    then have "real_of_int (rowSpacingCountOf rowLayouts) \<noteq> 0" by simp
    then have "sumRowHeightsOf rowLayouts
        + (gap + (containerHeight
                   - (sumRowHeightsOf rowLayouts
                      + gap * real_of_int (rowSpacingCountOf rowLayouts)))
                 / real_of_int (rowSpacingCountOf rowLayouts))
          * real_of_int (rowSpacingCountOf rowLayouts) = containerHeight"
      by (rule stretch_exact)
    with True show ?thesis
      by (simp add: fitVertical_def Let_def)
  next
    case False
    with that show ?thesis
      by (auto simp add: fitVertical_def Let_def)
  qed
  have c: "totalHeight (computeMosaicLayout images ratios containerWidth containerHeight gap)
            = snd (fitVertical rowLayouts gap containerHeight)
        \<and> layout_items (computeMosaicLayout images ratios containerWidth containerHeight gap)
            = stackRows (fst (fitVertical rowLayouts gap containerHeight)) 0 rowLayouts"
    if "images \<noteq> []"
      and "rowLayouts = layoutRowLayouts images ratios containerWidth containerHeight gap"
    using that by (simp add: computeMosaicLayout_def Let_def case_prod_beta)
  from a b c show ?thesis
    by (simp only: truncate_stackRows) blast
qed

theorem fitVertical_stretch_witness:
  "1 < length (layoutRowLayouts [''picsum.photos/id/1/50/100'', ''b'', ''c'', ''d'']
          [''b'' \<mapsto> 1/2, ''c'' \<mapsto> 1/2, ''d'' \<mapsto> 1/2] 100 200 10)
   \<and> sumRowHeightsOf (layoutRowLayouts [''picsum.photos/id/1/50/100'', ''b'', ''c'', ''d'']
          [''b'' \<mapsto> 1/2, ''c'' \<mapsto> 1/2, ''d'' \<mapsto> 1/2] 100 200 10)
       + 10 * (real (length (layoutRowLayouts [''picsum.photos/id/1/50/100'', ''b'', ''c'', ''d'']
          [''b'' \<mapsto> 1/2, ''c'' \<mapsto> 1/2, ''d'' \<mapsto> 1/2] 100 200 10)) - 1) = 190
   \<and> fst (fitVertical (layoutRowLayouts [''picsum.photos/id/1/50/100'', ''b'', ''c'', ''d'']
          [''b'' \<mapsto> 1/2, ''c'' \<mapsto> 1/2, ''d'' \<mapsto> 1/2] 100 200 10) 10 200) = 20
   \<and> snd (fitVertical (layoutRowLayouts [''picsum.photos/id/1/50/100'', ''b'', ''c'', ''d'']
          [''b'' \<mapsto> 1/2, ''c'' \<mapsto> 1/2, ''d'' \<mapsto> 1/2] 100 200 10) 10 200) = 200
   \<and> totalHeight (computeMosaicLayout [''picsum.photos/id/1/50/100'', ''b'', ''c'', ''d'']
          [''b'' \<mapsto> 1/2, ''c'' \<mapsto> 1/2, ''d'' \<mapsto> 1/2] 100 200 10) = 200"
proof -
  let ?images = "[''picsum.photos/id/1/50/100'', ''b'', ''c'', ''d'']"
  let ?ratios = "[''b'' \<mapsto> 1/2, ''c'' \<mapsto> 1/2, ''d'' \<mapsto> (1/2::real)]"
  let ?rls = "layoutRowLayouts ?images ?ratios 100 200 10"
  have n: "1 < length ?rls"
    unfolding example_rowLayouts by simp
  have t: "sumRowHeightsOf ?rls + 10 * (real (length ?rls) - 1) = 190"
    unfolding example_rowLayouts by (simp add: sumRowHeightsOf_def)
  have i: "?images \<noteq> []" by simp
  from fitVertical_stretch [of ?rls 10 200 ?images ?ratios 100] n t i
  have "fst (fitVertical ?rls 10 200) = 10 + (200 - 190) / (real (length ?rls) - 1)"
    and "snd (fitVertical ?rls 10 200) = 200"
    and "totalHeight (computeMosaicLayout ?images ?ratios 100 200 10) = snd (fitVertical ?rls 10 200)"
    by simp_all
  moreover have "real (length ?rls) - 1 = 1"
    unfolding example_rowLayouts by simp
  ultimately show ?thesis
    using n t by simp
qed

subsection \<open>Scale and offsets\<close>




subsection \<open>The row count\<close>






subsection \<open>No division by zero\<close>

lemma partitionLoop_nonempty:
  "\<forall>r \<in> set rows. items r \<noteq> [] \<Longrightarrow>
   row \<in> set (partitionLoop K ideal its rows currentSlice currentSum) \<Longrightarrow>
   items row \<noteq> []"
proof (induction K ideal its rows currentSlice currentSum rule: partitionLoop.induct)
  case (1 K ideal rows currentSlice currentSum)
  then show ?case by simp
next
  case (2 K ideal item rows currentSlice currentSum)
  then show ?case by auto
next
  case (3 K ideal item nxt rest rows currentSlice currentSum)
  let ?slice = "currentSlice @ [item]"
  let ?sum = "currentSum + ratio item"
  show ?case
  proof (cases "mayClose K rows \<and> \<bar>(?sum + ratio nxt) - ideal\<bar> > \<bar>?sum - ideal\<bar>")
    case True
    with "3.prems"(2) have "row \<in> set (partitionLoop K ideal (nxt # rest)
        (rows @ [\<lparr>items = ?slice, sumRatio = ?sum\<rparr>]) [] 0)"
      by (simp add: Let_def)
    moreover have "\<forall>r \<in> set (rows @ [\<lparr>items = ?slice, sumRatio = ?sum\<rparr>]). items r \<noteq> []"
      using "3.prems"(1) by simp
    ultimately show ?thesis
      using "3.IH"(1) [OF refl refl True] by simp
  next
    case False
    with "3.prems"(2) have "row \<in> set (partitionLoop K ideal (nxt # rest) rows ?slice ?sum)"
      by (auto simp add: Let_def)
    then show ?thesis
      using "3.IH"(2) [OF refl refl False] "3.prems"(1) by simp
  qed
qed

lemma partitionRows_nonempty:
  assumes "its \<noteq> []" and "row \<in> set (partitionRows its K)"
  shows "items row \<noteq> []"
proof (cases "K = Some 1")
  case True
  with assms show ?thesis by (simp add: partitionRows_def)
next
  case False
  with assms(2) have "row \<in> set (partitionLoop K
      (case K of None \<Rightarrow> 0 | Some k \<Rightarrow> totalRatioOf its / real_of_int k) its [] [] 0)"
    by (simp add: partitionRows_def)
  then show ?thesis
    by (rule partitionLoop_nonempty [rotated]) simp
qed

lemma partitionRows_not_Nil: "its \<noteq> [] \<Longrightarrow> partitionRows its K \<noteq> []"
  using concat_partitionRows [of its K] by auto

lemma buildRows_all_nonempty:
  "\<forall>row \<in> set rows. items row \<noteq> [] \<Longrightarrow> buildRows containerWidth gap rows = map (buildRow containerWidth gap) rows"
  by (simp add: buildRows_def)










subsection \<open>The ratio of an item\<close>


lemma mem_lit: "r \<in> set (lit l s) \<longleftrightarrow> s = l @ r"
  by (auto simp add: lit_def) (metis append_take_drop_id)



lemma mem_optSlash: "r \<in> set (optSlash s) \<longleftrightarrow> s = ''/'' @ r \<or> r = s"
  by (auto simp add: optSlash_def mem_lit)















subsection \<open>Raw coordinates and the transform\<close>

lemma stackRows_first:
  assumes "row_items row \<noteq> []"
  shows "stackRows verticalGap currentY (row # rest) \<noteq> []
    \<and> x (hd (stackRows verticalGap currentY (row # rest))) = x (hd (row_items row))
    \<and> y (hd (stackRows verticalGap currentY (row # rest))) = currentY"
  using assms by (cases "row_items row") simp_all

lemma buildRow_first:
  assumes "items row \<noteq> []"
  shows "row_items (buildRow containerWidth gap row) \<noteq> []
    \<and> x (hd (row_items (buildRow containerWidth gap row))) = 0"
  using assms by (cases "items row") (simp_all add: buildRow_def Let_def)

lemma layoutRowLayouts_first:
  assumes "images \<noteq> []"
  shows "\<exists>row rest. layoutRowLayouts images ratios containerWidth containerHeight gap = row # rest
    \<and> row_items row \<noteq> [] \<and> x (hd (row_items row)) = 0"
proof -
  define rows where "rows = layoutRows images ratios containerWidth containerHeight"
  have ne: "prepareItems images ratios \<noteq> []"
    using assms length_prepareItems [of images ratios] by auto
  have all: "\<forall>row \<in> set rows. items row \<noteq> []"
    using partitionRows_nonempty [OF ne] by (auto simp add: rows_def layoutRows_def Let_def)
  have "rows \<noteq> []"
    using partitionRows_not_Nil [OF ne] by (simp add: rows_def layoutRows_def Let_def)
  then obtain r rs where rows: "rows = r # rs"
    by (cases rows) auto
  have "layoutRowLayouts images ratios containerWidth containerHeight gap
      = buildRow containerWidth gap r # map (buildRow containerWidth gap) rs"
    using buildRows_all_nonempty [OF all, of containerWidth gap]
    by (simp add: layoutRowLayouts_def rows_def [symmetric] rows)
  moreover have "items r \<noteq> []"
    using all rows by simp
  ultimately show ?thesis
    using buildRow_first [of r containerWidth gap] by blast
qed

text \<open>
  C9. For a non-empty input the returned items are the row boxes stacked from \<open>y = 0\<close> with
  the vertical gap, and the returned total height is the one of the vertical fit: neither
  depends on the scale or on the offsets, which are returned beside them; the first item is
  at \<open>x = 0\<close> and \<open>y = 0\<close>, and its wrapper is placed at the left and top offsets. For
  every input, a scale below 1 comes with a returned total height above the container
  height, and it is the consumer that scales and shifts every item.
\<close>

theorem computeMosaicLayout_raw_geometry:
  "(images \<noteq> [] \<longrightarrow>
      layout_items (computeMosaicLayout images ratios containerWidth containerHeight gap)
        = stackRows
            (fst (fitVertical (layoutRowLayouts images ratios containerWidth containerHeight gap)
                    gap containerHeight))
            0 (layoutRowLayouts images ratios containerWidth containerHeight gap)
      \<and> totalHeight (computeMosaicLayout images ratios containerWidth containerHeight gap)
        = snd (fitVertical (layoutRowLayouts images ratios containerWidth containerHeight gap)
                 gap containerHeight)
      \<and> layout_items (computeMosaicLayout images ratios containerWidth containerHeight gap) \<noteq> []
      \<and> x (hd (layout_items (computeMosaicLayout images ratios containerWidth containerHeight gap)))
        = 0
      \<and> y (hd (layout_items (computeMosaicLayout images ratios containerWidth containerHeight gap)))
        = 0
      \<and> css_left (wrapperStyle (computeMosaicLayout images ratios containerWidth containerHeight gap)
            (hd (layout_items (computeMosaicLayout images ratios containerWidth containerHeight gap))))
          = leftOffset (computeMosaicLayout images ratios containerWidth containerHeight gap)
      \<and> css_top (wrapperStyle (computeMosaicLayout images ratios containerWidth containerHeight gap)
            (hd (layout_items (computeMosaicLayout images ratios containerWidth containerHeight gap))))
          = topOffset (computeMosaicLayout images ratios containerWidth containerHeight gap))
    \<and> (scale (computeMosaicLayout images ratios containerWidth containerHeight gap) < 1
        \<longrightarrow> containerHeight
            < totalHeight (computeMosaicLayout images ratios containerWidth containerHeight gap))
    \<and> (\<forall>item \<in> set (layout_items
            (computeMosaicLayout images ratios containerWidth containerHeight gap)).
          wrapperStyle (computeMosaicLayout images ratios containerWidth containerHeight gap) item
          = \<lparr>css_top = topOffset (computeMosaicLayout images ratios containerWidth containerHeight gap)
                + y item * scale (computeMosaicLayout images ratios containerWidth containerHeight gap),
             css_left = leftOffset (computeMosaicLayout images ratios containerWidth containerHeight gap)
                + x item * scale (computeMosaicLayout images ratios containerWidth containerHeight gap),
             css_width = width item
                * scale (computeMosaicLayout images ratios containerWidth containerHeight gap),
             css_height = height item
                * scale (computeMosaicLayout images ratios containerWidth containerHeight gap)\<rparr>)"
proof -
  define r where "r = computeMosaicLayout images ratios containerWidth containerHeight gap"
  define rls where "rls = layoutRowLayouts images ratios containerWidth containerHeight gap"
  define vg where "vg = fst (fitVertical rls gap containerHeight)"
  have o: "scale r < 1 \<longrightarrow> containerHeight < totalHeight r"
  proof (cases "images = []")
    case True
    then show ?thesis
      by (simp add: r_def computeMosaicLayout_def)
  next
    case False
    then have "scale r
        = (if totalHeight r > containerHeight then containerHeight / totalHeight r else 1)"
      by (simp add: r_def computeMosaicLayout_def Let_def case_prod_beta)
    then show ?thesis by simp
  qed
  have w: "wrapperStyle r item
      = \<lparr>css_top = topOffset r + y item * scale r, css_left = leftOffset r + x item * scale r,
         css_width = width item * scale r, css_height = height item * scale r\<rparr>" for item
    by (simp add: wrapperStyle_def Let_def)
  have n: "layout_items r = stackRows vg 0 rls
      \<and> totalHeight r = snd (fitVertical rls gap containerHeight)
      \<and> layout_items r \<noteq> [] \<and> x (hd (layout_items r)) = 0 \<and> y (hd (layout_items r)) = 0
      \<and> css_left (wrapperStyle r (hd (layout_items r))) = leftOffset r
      \<and> css_top (wrapperStyle r (hd (layout_items r))) = topOffset r" if ne: "images \<noteq> []"
  proof -
    have i: "layout_items r = stackRows vg 0 rls"
      using ne by (simp add: r_def rls_def vg_def computeMosaicLayout_def Let_def case_prod_beta)
    have t: "totalHeight r = snd (fitVertical rls gap containerHeight)"
      using ne by (simp add: r_def rls_def computeMosaicLayout_def Let_def case_prod_beta)
    obtain row rest where rls: "rls = row # rest" and row: "row_items row \<noteq> []"
      and x0: "x (hd (row_items row)) = 0"
      using layoutRowLayouts_first [OF ne, of ratios containerWidth containerHeight gap]
      by (auto simp add: rls_def)
    have f: "layout_items r \<noteq> [] \<and> x (hd (layout_items r)) = 0 \<and> y (hd (layout_items r)) = 0"
      using stackRows_first [OF row, of vg 0 rest] x0 by (simp add: i rls)
    have l: "css_left (wrapperStyle r (hd (layout_items r))) = leftOffset r"
      using f by (simp add: w)
    have p: "css_top (wrapperStyle r (hd (layout_items r))) = topOffset r"
      using f by (simp add: w)
    from i t f l p show ?thesis by (intro conjI) blast+
  qed
  from n o w show ?thesis
    unfolding r_def rls_def vg_def by (intro conjI impI ballI) blast+
qed

text \<open>A tall image that overflows a square container is scaled to a quarter.\<close>

lemma example3_layout:
  "computeMosaicLayout [''tall''] [''tall'' \<mapsto> 1/4] 100 100 0
   = \<lparr>layout_items = [\<lparr>box_index = 0, box_src = ''tall'', x = 0, width = 100, height = 400, y = 0\<rparr>],
      totalHeight = 400, scale = 1/4, topOffset = 0, leftOffset = 75/2\<rparr>"
proof -
  have its: "prepareItems [''tall''] [''tall'' \<mapsto> 1/4] = [\<lparr>src = ''tall'', index = 0, ratio = 1/4\<rparr>]"
    by (simp add: prepareItems_def resolveRatio_def js_or_def js_or_const_def truthy_def
        enumerate_eq_zip)
  have "round (sqrt (1/4)) = 1"
    by (rule round_sqrt_eqI) (simp_all add: power2_eq_square)
  then have k: "estimateRowCount (totalRatioOf [\<lparr>src = ''tall'', index = 0, ratio = 1/4\<rparr>])
      (100 / 100) (length [\<lparr>src = ''tall'', index = 0, ratio = 1/4\<rparr>]) = Some 1"
    by (simp add: totalRatioOf_def estimateRowCount_def mathSqrt_def)
  have rows: "layoutRows [''tall''] [''tall'' \<mapsto> 1/4] 100 100
      = partitionRows [\<lparr>src = ''tall'', index = 0, ratio = 1/4\<rparr>] (Some 1)"
    by (simp only: layoutRows_def Let_def its k)
  have rls: "layoutRowLayouts [''tall''] [''tall'' \<mapsto> 1/4] 100 100 0
      = [\<lparr>row_height = 400, row_items =
           [\<lparr>box_index = 0, box_src = ''tall'', x = 0, width = 100, height = 400\<rparr>]\<rparr>]"
    by (simp add: layoutRowLayouts_def rows partitionRows_def totalRatioOf_def buildRows_def
        buildRow_def Let_def)
  show ?thesis
    by (simp add: computeMosaicLayout_def rls fitVertical_def rowSpacingCountOf_def
        sumRowHeightsOf_def Let_def)
qed

theorem computeMosaicLayout_raw_geometry_witness:
  "[''tall''] \<noteq> [] \<and> (0::real) < 100
   \<and> scale (computeMosaicLayout [''tall''] [''tall'' \<mapsto> 1/4] 100 100 0) = 1/4
   \<and> totalHeight (computeMosaicLayout [''tall''] [''tall'' \<mapsto> 1/4] 100 100 0) = 400
   \<and> x (hd (layout_items (computeMosaicLayout [''tall''] [''tall'' \<mapsto> 1/4] 100 100 0))) = 0
   \<and> width (hd (layout_items (computeMosaicLayout [''tall''] [''tall'' \<mapsto> 1/4] 100 100 0))) = 100
   \<and> css_left (wrapperStyle (computeMosaicLayout [''tall''] [''tall'' \<mapsto> 1/4] 100 100 0)
        (hd (layout_items (computeMosaicLayout [''tall''] [''tall'' \<mapsto> 1/4] 100 100 0)))) = 75/2
   \<and> css_width (wrapperStyle (computeMosaicLayout [''tall''] [''tall'' \<mapsto> 1/4] 100 100 0)
        (hd (layout_items (computeMosaicLayout [''tall''] [''tall'' \<mapsto> 1/4] 100 100 0)))) = 25"
proof -
  let ?r = "computeMosaicLayout [''tall''] [''tall'' \<mapsto> 1/4] 100 100 0"
  have h1: "[''tall''] \<noteq> []" by simp
  have h2: "(0::real) < 100" by simp
  from computeMosaicLayout_raw_geometry [of "[''tall'']" "[''tall'' \<mapsto> 1/4]" 100 100 0] h1
  have g: "x (hd (layout_items ?r)) = 0
      \<and> css_left (wrapperStyle ?r (hd (layout_items ?r))) = leftOffset ?r"
    by blast
  have "x (hd (layout_items ?r)) = 0"
    using g by (rule conjunct1)
  moreover have "css_left (wrapperStyle ?r (hd (layout_items ?r))) = leftOffset ?r"
    using g by (rule conjunct2)
  moreover have "leftOffset ?r = 75/2" and "scale ?r = 1/4" and "totalHeight ?r = 400"
    and "width (hd (layout_items ?r)) = 100"
    and "css_width (wrapperStyle ?r (hd (layout_items ?r))) = 25"
    by (simp_all add: example3_layout wrapperStyle_def)
  ultimately show ?thesis
    using h1 h2 by simp
qed

end
